theory Spec2Isabelle
  imports Main
begin

unbundle bit_operations_syntax

section \<open>The E20 simulator of \<^verbatim>\<open>sim.py\<close>\<close>

text \<open>
  Python integers are unbounded, so every number of the program is an \<^typ>\<open>int\<close>:
  \<^verbatim>\<open>&\<close>, \<^verbatim>\<open>|\<close>, \<^verbatim>\<open>^\<close> are \<open>AND\<close>, \<open>OR\<close>, \<open>XOR\<close> on \<^typ>\<open>int\<close> (two's
  complement, also for negative numbers, as in Python), \<^verbatim>\<open>x >> n\<close> is \<open>drop_bit n x\<close>,
  \<^verbatim>\<open>1 << n\<close> is \<open>push_bit n 1\<close>, and \<^verbatim>\<open>%\<close> is \<open>mod\<close> (both take the sign of the divisor).
  The register file and the memory are Python lists, modelled as \<^typ>\<open>int list\<close>. The
  functions mutate them in place and return them again; the model passes them through.
\<close>

subsection \<open>Exceptions and list access\<close>

text \<open>
  The first five errors are the \<^verbatim>\<open>ValueError\<close>s of the loader, told apart by their message:
  the three \<^verbatim>\<open>raise\<close> statements of \<^verbatim>\<open>load_machine_code\<close> and the two that \<^verbatim>\<open>int\<close> raises,
  "invalid literal" on a digit that is not below the base and "Exceeds the limit" on a
  decimal string of too many digits (with their number). \<open>IndexError\<close> is a list index out
  of range; \<open>TypeError\<close> is what unpacking \<^verbatim>\<open>None\<close> into three names raises in \<^verbatim>\<open>main\<close>.
\<close>

datatype error =
    CantParseLine string
  | InvalidLiteral string
  | DigitLimit nat
  | OutOfSequence int
  | ProgramTooBig
  | IndexError
  | TypeError

definition ebind :: "error + 'a \<Rightarrow> ('a \<Rightarrow> error + 'b) \<Rightarrow> error + 'b" where
  "ebind m f = (case m of Inl e \<Rightarrow> Inl e | Inr v \<Rightarrow> f v)"

text \<open>\<^verbatim>\<open>xs[i]\<close>: a negative index counts from the end, anything out of range raises.\<close>

definition list_index :: "'a list \<Rightarrow> int \<Rightarrow> error + nat" where
  "list_index xs i =
     (let n = int (length xs); j = (if i < 0 then i + n else i)
      in if 0 \<le> j \<and> j < n then Inr (nat j) else Inl IndexError)"

definition getitem :: "'a list \<Rightarrow> int \<Rightarrow> error + 'a" where
  "getitem xs i = ebind (list_index xs i) (\<lambda>j. Inr (xs ! j))"

definition setitem :: "'a list \<Rightarrow> int \<Rightarrow> 'a \<Rightarrow> error + 'a list" where
  "setitem xs i v = ebind (list_index xs i) (\<lambda>j. Inr (xs[j := v]))"

subsection \<open>Helpers of the executor\<close>

definition sign_extend_7 :: "int \<Rightarrow> int" where
  "sign_extend_7 num =
     (let left_most_bit = drop_bit 6 (num AND 64)
      in if left_most_bit = 1 then 65408 OR num else num)"

text \<open>Every call of the source passes \<^verbatim>\<open>bits = 7\<close>; the sign test is on bit 6 whatever \<open>bits\<close> is.\<close>

definition sign_number_converter :: "int \<Rightarrow> nat \<Rightarrow> int" where
  "sign_number_converter num bits =
     (let left_most_bit = drop_bit 6 (num AND 64)
      in if left_most_bit = 1
         then (let bitmask = push_bit bits 1 - 1 in - ((num XOR bitmask) + 1))
         else num)"

definition valid_pc :: "int \<Rightarrow> int" where
  "valid_pc pc = pc mod 65536"

definition keep_16bits :: "int \<Rightarrow> int" where
  "keep_16bits num = (let bitmask = push_bit 16 1 - 1 in num AND bitmask)"

subsection \<open>The executor\<close>

text \<open>
  A step returns the triple \<^verbatim>\<open>(pc, regs, memory)\<close>. \<^verbatim>\<open>instruction_2R\<close> ends without a
  \<^verbatim>\<open>return\<close> when no opcode matches, which in Python returns \<^verbatim>\<open>None\<close>: the result of a step
  is therefore an option, \<open>Inr None\<close> being that path, under the exceptions.
\<close>

type_synonym state = "int \<times> int list \<times> int list"
type_synonym result = "error + state option"

definition instruction_3R :: "int \<Rightarrow> int \<Rightarrow> int list \<Rightarrow> int list \<Rightarrow> result" where
  "instruction_3R instruction pc regs memory =
     (let regSrcA = drop_bit 10 (instruction AND 7168);
          regSrcB = drop_bit 7 (instruction AND 896);
          regDst = drop_bit 4 (instruction AND 112);
          opcode = instruction AND 15
      in if opcode = 8 then
           ebind (getitem regs regSrcA) (\<lambda>pc. Inr (Some (valid_pc pc, regs, memory)))
         else if regDst = 0 then Inr (Some (valid_pc (pc + 1), regs, memory))
         else
           ebind
             (if opcode = 0 then
                ebind (getitem regs regSrcA) (\<lambda>a. ebind (getitem regs regSrcB) (\<lambda>b.
                  setitem regs regDst (keep_16bits (a + b))))
              else if opcode = 1 then
                ebind (getitem regs regSrcA) (\<lambda>a. ebind (getitem regs regSrcB) (\<lambda>b.
                  setitem regs regDst (keep_16bits (a - b))))
              else if opcode = 2 then
                ebind (getitem regs regSrcA) (\<lambda>a. ebind (getitem regs regSrcB) (\<lambda>b.
                  setitem regs regDst (keep_16bits (a OR b))))
              else if opcode = 3 then
                ebind (getitem regs regSrcA) (\<lambda>a. ebind (getitem regs regSrcB) (\<lambda>b.
                  setitem regs regDst (keep_16bits (a AND b))))
              else if opcode = 4 then
                ebind (getitem regs regSrcA) (\<lambda>a. ebind (getitem regs regSrcB) (\<lambda>b.
                  if a < b then setitem regs regDst 1 else setitem regs regDst 0))
              else Inr regs)
             (\<lambda>regs. Inr (Some (valid_pc (pc + 1), regs, memory))))"

text \<open>
  The guard for register 0 is a nested \<^verbatim>\<open>if\<close> without \<^verbatim>\<open>else\<close> in the source; both tests
  are free of effects, so it is one condition here. In \<^verbatim>\<open>sw\<close> the right-hand side
  \<^verbatim>\<open>regs[regDst]\<close> is read before the store.
\<close>

definition instruction_2R :: "int \<Rightarrow> int \<Rightarrow> int list \<Rightarrow> int list \<Rightarrow> result" where
  "instruction_2R instruction pc regs memory =
     (let opcode = drop_bit 13 (instruction AND 57344);
          regSrc = drop_bit 10 (instruction AND 7168);
          regDst = drop_bit 7 (instruction AND 896);
          imm = instruction AND 127
      in if regDst = 0 \<and> (opcode = 7 \<or> opcode = 4 \<or> opcode = 1) then
           Inr (Some (valid_pc (pc + 1), regs, memory))
         else if opcode = 7 then
           ebind (getitem regs regSrc) (\<lambda>a.
           ebind (if a < sign_extend_7 imm then setitem regs regDst 1 else setitem regs regDst 0)
             (\<lambda>regs. Inr (Some (valid_pc (pc + 1), regs, memory))))
         else if opcode = 4 then
           ebind (getitem regs regSrc) (\<lambda>a.
           let val = (a + sign_number_converter imm 7) AND 8191 in
           ebind (getitem memory val) (\<lambda>w.
           ebind (setitem regs regDst (keep_16bits w))
             (\<lambda>regs. Inr (Some (valid_pc (pc + 1), regs, memory)))))
         else if opcode = 5 then
           ebind (getitem regs regSrc) (\<lambda>a.
           let val = (a + sign_number_converter imm 7) AND 8191 in
           ebind (getitem regs regDst) (\<lambda>v.
           ebind (setitem memory val v)
             (\<lambda>memory. Inr (Some (valid_pc (pc + 1), regs, memory)))))
         else if opcode = 6 then
           ebind (getitem regs regSrc) (\<lambda>a.
           ebind (getitem regs regDst) (\<lambda>b.
             if a = b then
               (let pc = pc + 1 + sign_number_converter imm 7
                in Inr (Some (valid_pc pc, regs, memory)))
             else Inr (Some (valid_pc (pc + 1), regs, memory))))
         else if opcode = 1 then
           ebind (getitem regs regSrc) (\<lambda>a.
           ebind (setitem regs regDst (keep_16bits (a + sign_number_converter imm 7)))
             (\<lambda>regs. Inr (Some (valid_pc (pc + 1), regs, memory))))
         else Inr None)"

definition instruction_0R :: "int \<Rightarrow> int \<Rightarrow> int list \<Rightarrow> int list \<Rightarrow> result" where
  "instruction_0R instruction pc regs memory =
     (let opcode = drop_bit 13 (instruction AND 57344);
          imm = instruction AND 8191
      in if opcode = 2 then Inr (Some (valid_pc imm, regs, memory))
         else if opcode = 3 then
           ebind (setitem regs 7 (keep_16bits (pc + 1)))
             (\<lambda>regs. Inr (Some (valid_pc imm, regs, memory)))
         else Inr (Some (valid_pc pc, regs, memory)))"

definition simulation :: "int \<Rightarrow> int list \<Rightarrow> int list \<Rightarrow> result" where
  "simulation pc regs memory =
     ebind (getitem memory (pc mod 8192)) (\<lambda>instruction.
       if drop_bit 13 (instruction AND 57344) = 0 then
         instruction_3R instruction pc regs memory
       else if drop_bit 13 (instruction AND 57344) = 2
             \<or> drop_bit 13 (instruction AND 57344) = 3 then
         instruction_0R instruction pc regs memory
       else instruction_2R instruction pc regs memory)"

subsection \<open>The run loop of \<^verbatim>\<open>main\<close>\<close>

text \<open>
  One iteration of \<^verbatim>\<open>while True\<close>. The lists are mutated in place, so the \<^verbatim>\<open>memory\<close>
  that the halt check reads is the list \<^verbatim>\<open>simulation\<close> returned. \<open>Halted\<close> is the
  \<^verbatim>\<open>break\<close>, with the state handed to \<^verbatim>\<open>print_state\<close>; \<open>Running\<close> is the state the next
  iteration starts from.
\<close>

datatype outcome = Halted state | Running state

definition loop_body :: "state \<Rightarrow> error + outcome" where
  "loop_body s =
     (case s of (old_pc, regs, memory) \<Rightarrow>
        ebind (simulation old_pc regs memory) (\<lambda>r.
          case r of
            None \<Rightarrow> Inl TypeError
          | Some (new_pc, new_regs, new_memory) \<Rightarrow>
              if new_pc = old_pc then
                ebind (getitem new_memory (old_pc mod 8191)) (\<lambda>w.
                  if drop_bit 13 w = 2 then Inr (Halted (new_pc, new_regs, new_memory))
                  else Inr (Running (new_pc, new_regs, new_memory)))
              else Inr (Running (new_pc, new_regs, new_memory))))"

text \<open>
  The loop need not end, so it runs on fuel: \<open>run_loop n s\<close> is the loop after at most
  \<open>n\<close> iterations from \<open>s\<close>, \<open>Running\<close> when the fuel is used up before a \<^verbatim>\<open>break\<close>.
\<close>

fun run_loop :: "nat \<Rightarrow> state \<Rightarrow> error + outcome" where
  "run_loop 0 s = Inr (Running s)"
| "run_loop (Suc n) s =
     ebind (loop_body s) (\<lambda>out.
       case out of Halted s' \<Rightarrow> Inr (Halted s') | Running s' \<Rightarrow> run_loop n s')"

text \<open>The state \<^verbatim>\<open>main\<close> starts the loop in: \<^verbatim>\<open>pc = 0\<close>, eight registers at 0.\<close>

definition initial :: "int list \<Rightarrow> state" where
  "initial memory = (0, replicate 8 0, memory)"

subsection \<open>The loader\<close>

text \<open>
  A line is a \<^typ>\<open>string\<close> of ASCII characters. (For a Python \<^verbatim>\<open>str\<close>, \<^verbatim>\<open>\d\<close> also matches
  the decimal digits of other scripts and \<^verbatim>\<open>int\<close> reads them; lines with such characters are
  outside this model.) The regular expression of the source is
  \<^verbatim>\<open>^ram\[(\d+)\] = 16'b(\d+);.*$\<close>, applied with \<^verbatim>\<open>match\<close> (anchored at the start). Each
  \<^verbatim>\<open>\d+\<close> is followed by a character that is no digit, so the group is the whole run of
  digits there and must not be empty. \<^verbatim>\<open>.\<close> matches everything but a newline and \<^verbatim>\<open>$\<close>
  matches at the end or before a final newline, so \<^verbatim>\<open>.*$\<close> accepts a rest whose only
  newline, if any, is its last character.
\<close>

definition is_digit :: "char \<Rightarrow> bool" where
  "is_digit c = (c \<in> set ''0123456789'')"

fun strip_prefix :: "string \<Rightarrow> string \<Rightarrow> string option" where
  "strip_prefix [] s = Some s"
| "strip_prefix (p # ps) [] = None"
| "strip_prefix (p # ps) (c # cs) = (if p = c then strip_prefix ps cs else None)"

definition machine_code_re_match :: "string \<Rightarrow> (string \<times> string) option" where
  "machine_code_re_match line =
     (case strip_prefix ''ram['' line of
        None \<Rightarrow> None
      | Some r1 \<Rightarrow>
          if takeWhile is_digit r1 = [] then None
          else
            (case strip_prefix ''] = 16'b'' (dropWhile is_digit r1) of
               None \<Rightarrow> None
             | Some r2 \<Rightarrow>
                 if takeWhile is_digit r2 = [] then None
                 else
                   (case strip_prefix '';'' (dropWhile is_digit r2) of
                      None \<Rightarrow> None
                    | Some r3 \<Rightarrow>
                        if CHR 0x0A \<in> set (butlast r3) then None
                        else Some (takeWhile is_digit r1, takeWhile is_digit r2))))"

text \<open>
  \<^verbatim>\<open>int(s, base)\<close> on a string of digits, as CPython 3.11 computes it. When the base is not
  a power of two, it first counts the leading digits below the base and raises
  \<^verbatim>\<open>ValueError\<close> when they are more than \<^verbatim>\<open>sys.int_info.default_max_str_digits\<close>, 4300
  (the limit can be configured; this is its default). Then it raises \<^verbatim>\<open>ValueError\<close> when
  the string is empty or a digit is not below the base, and otherwise returns the value. A
  base that is a power of two has no limit.
\<close>

definition max_str_digits :: nat where
  "max_str_digits = 4300"

definition digit_value :: "char \<Rightarrow> int" where
  "digit_value c = int (of_char c) - 48"

definition digits_value :: "int \<Rightarrow> string \<Rightarrow> int" where
  "digits_value base s = foldl (\<lambda>n c. base * n + digit_value c) 0 s"

definition py_int :: "string \<Rightarrow> int \<Rightarrow> error + int" where
  "py_int s base =
     (let digits = length (takeWhile (\<lambda>c. is_digit c \<and> digit_value c < base) s)
      in if base AND (base - 1) \<noteq> 0 \<and> digits > max_str_digits then Inl (DigitLimit digits)
         else if s \<noteq> [] \<and> list_all (\<lambda>c. is_digit c \<and> digit_value c < base) s
         then Inr (digits_value base s)
         else Inl (InvalidLiteral s))"

text \<open>
  The \<^verbatim>\<open>for\<close> loop of \<^verbatim>\<open>load_machine_code\<close>, over the lines left, with \<^verbatim>\<open>expectedaddr\<close>
  and the list \<^verbatim>\<open>mem\<close> as they stand. The result is the exception raised, if any, and
  \<^verbatim>\<open>mem\<close> as the call leaves it: the caller holds the same list.
\<close>

fun load_loop :: "string list \<Rightarrow> int \<Rightarrow> int list \<Rightarrow> error option \<times> int list" where
  "load_loop [] expectedaddr mem = (None, mem)"
| "load_loop (line # rest) expectedaddr mem =
     (case machine_code_re_match line of
        None \<Rightarrow> (Some (CantParseLine line), mem)
      | Some (addr, instr) \<Rightarrow>
          (case py_int addr 10 of
             Inl e \<Rightarrow> (Some e, mem)
           | Inr addr \<Rightarrow>
               (case py_int instr 2 of
                  Inl e \<Rightarrow> (Some e, mem)
                | Inr instr \<Rightarrow>
                    if addr \<noteq> expectedaddr then (Some (OutOfSequence addr), mem)
                    else if addr \<ge> int (length mem) then (Some ProgramTooBig, mem)
                    else
                      (case setitem mem addr instr of
                         Inl e \<Rightarrow> (Some e, mem)
                       | Inr mem' \<Rightarrow> load_loop rest (expectedaddr + 1) mem'))))"

definition load_machine_code :: "string list \<Rightarrow> int list \<Rightarrow> error option \<times> int list" where
  "load_machine_code machine_code mem = load_loop machine_code 0 mem"

text \<open>
  \<^verbatim>\<open>main\<close> on the lines of the file, with fuel for the loop: the memory is 8192 zeros, an
  exception of the loader ends the program, otherwise the loop runs on the loaded memory.
\<close>

definition main :: "nat \<Rightarrow> string list \<Rightarrow> error + outcome" where
  "main fuel file =
     (case load_machine_code file (replicate 8192 0) of
        (Some e, memory) \<Rightarrow> Inl e
      | (None, memory) \<Rightarrow> run_loop fuel (initial memory))"

subsection \<open>Notions used in the statements\<close>

text \<open>The state an outcome carries.\<close>

fun outcome_state :: "outcome \<Rightarrow> state" where
  "outcome_state (Halted s) = s"
| "outcome_state (Running s) = s"

text \<open>
  What the loader makes of one line, read off its failing branches in their order: the line
  at zero-based position \<open>i\<close> of the file, for a memory of \<open>n\<close> cells, raises when the regular
  expression does not match it, or its address is written with more than 4300 digits, or a
  digit after \<^verbatim>\<open>16'b\<close> is not binary, or its address is not \<open>i\<close>, or its address is not below
  \<open>n\<close>; otherwise it is accepted (\<open>None\<close>). \<open>line_word\<close> is the word an accepted line stores.
\<close>

definition is_binary :: "char \<Rightarrow> bool" where
  "is_binary c = (c = CHR ''0'' \<or> c = CHR ''1'')"

definition line_error :: "nat \<Rightarrow> nat \<Rightarrow> string \<Rightarrow> error option" where
  "line_error n i line =
     (case machine_code_re_match line of
        None \<Rightarrow> Some (CantParseLine line)
      | Some (addr, instr) \<Rightarrow>
          if length addr > max_str_digits then Some (DigitLimit (length addr))
          else if \<not> list_all is_binary instr then Some (InvalidLiteral instr)
          else if digits_value 10 addr \<noteq> int i then Some (OutOfSequence (digits_value 10 addr))
          else if digits_value 10 addr \<ge> int n then Some ProgramTooBig
          else None)"

definition line_word :: "string \<Rightarrow> int" where
  "line_word line =
     (case machine_code_re_match line of
        None \<Rightarrow> 0
      | Some (addr, instr) \<Rightarrow> digits_value 2 instr)"

text \<open>
  The pattern as the specification words it,
  \<^verbatim>\<open>ram[<decimal-address>] = 16'b<16-binary-digits>;\<close>: a line the regular expression
  matches whose second group is sixteen binary digits.
\<close>

definition spec_line_pattern :: "string \<Rightarrow> bool" where
  "spec_line_pattern line =
     (case machine_code_re_match line of
        None \<Rightarrow> False
      | Some (addr, instr) \<Rightarrow> length instr = 16 \<and> list_all is_binary instr)"

text \<open>
  A list of 16-bit words, and the two properties of a step's result that the proofs carry
  along: \<open>ok_result\<close> is a triple with a PC in 0..65535, eight registers, 8192 memory cells and
  register 0 as it was; \<open>words_result\<close> is a triple whose registers and memory are words.
\<close>

definition words :: "int list \<Rightarrow> bool" where
  "words xs = (\<forall>x\<in>set xs. 0 \<le> x \<and> x < 65536)"

definition ok_result :: "int list \<Rightarrow> result \<Rightarrow> bool" where
  "ok_result regs r =
     (case r of
        Inr (Some (pc', regs', memory')) \<Rightarrow>
          0 \<le> pc' \<and> pc' < 65536 \<and> length regs' = 8 \<and> length memory' = 8192
          \<and> regs' ! 0 = regs ! 0
      | _ \<Rightarrow> False)"

definition words_result :: "result \<Rightarrow> bool" where
  "words_result r =
     (case r of
        Inr (Some (pc', regs', memory')) \<Rightarrow> words regs' \<and> words memory'
      | _ \<Rightarrow> True)"

text \<open>The invariant of the run loop: eight registers, 8192 memory cells, register 0 at 0.\<close>

definition machine_ok :: "state \<Rightarrow> bool" where
  "machine_ok s =
     (case s of (pc, regs, memory) \<Rightarrow> length regs = 8 \<and> length memory = 8192 \<and> regs ! 0 = 0)"

section \<open>Basic facts\<close>

lemma ebind_Inl [simp]: "ebind (Inl e) f = Inl e" by (simp add: ebind_def)
lemma ebind_Inr [simp]: "ebind (Inr v) f = f v" by (simp add: ebind_def)

lemma getitem_in_range:
  "0 \<le> i \<Longrightarrow> i < int (length xs) \<Longrightarrow> getitem xs i = Inr (xs ! nat i)"
  by (simp add: getitem_def list_index_def)

lemma setitem_in_range:
  "0 \<le> i \<Longrightarrow> i < int (length xs) \<Longrightarrow> setitem xs i v = Inr (xs[nat i := v])"
  by (simp add: setitem_def list_index_def)

lemma reg_get: "length regs = 8 \<Longrightarrow> 0 \<le> r \<Longrightarrow> r \<le> 7 \<Longrightarrow> getitem regs r = Inr (regs ! nat r)"
  by (simp add: getitem_in_range)

lemma reg_set:
  "length regs = 8 \<Longrightarrow> 0 \<le> r \<Longrightarrow> r \<le> 7 \<Longrightarrow> setitem regs r v = Inr (regs[nat r := v])"
  by (simp add: setitem_in_range)

lemma mem_get:
  "length memory = 8192 \<Longrightarrow> 0 \<le> a \<Longrightarrow> a < 8192 \<Longrightarrow> getitem memory a = Inr (memory ! nat a)"
  by (simp add: getitem_in_range)

lemma mem_set:
  "length memory = 8192 \<Longrightarrow> 0 \<le> a \<Longrightarrow> a < 8192 \<Longrightarrow>
   setitem memory a v = Inr (memory[nat a := v])"
  by (simp add: setitem_in_range)

lemma keep_16bits_mod: "keep_16bits num = num mod 65536"
proof -
  have m: "(65535::int) = mask 16" by (simp add: mask_eq_exp_minus_1)
  show ?thesis by (simp add: keep_16bits_def m take_bit_eq_mod flip: take_bit_eq_mask)
qed

lemma and_8191_mod: "(k::int) AND 8191 = k mod 8192"
proof -
  have m: "(8191::int) = mask 13" by (simp add: mask_eq_exp_minus_1)
  show ?thesis by (simp add: m take_bit_eq_mod flip: take_bit_eq_mask)
qed

lemma field_bounds:
  fixes w :: int
  shows "0 \<le> drop_bit 13 (w AND 57344)" "drop_bit 13 (w AND 57344) \<le> 7"
    "0 \<le> drop_bit 10 (w AND 7168)" "drop_bit 10 (w AND 7168) \<le> 7"
    "0 \<le> drop_bit 7 (w AND 896)" "drop_bit 7 (w AND 896) \<le> 7"
    "0 \<le> drop_bit 4 (w AND 112)" "drop_bit 4 (w AND 112) \<le> 7"
proof -
  show "0 \<le> drop_bit 13 (w AND 57344)" "0 \<le> drop_bit 10 (w AND 7168)"
    "0 \<le> drop_bit 7 (w AND 896)" "0 \<le> drop_bit 4 (w AND 112)" by simp_all
  show "drop_bit 13 (w AND 57344) \<le> 7"
    using zdiv_mono1 [of "w AND 57344" 57344 8192] by (simp add: drop_bit_eq_div)
  show "drop_bit 10 (w AND 7168) \<le> 7"
    using zdiv_mono1 [of "w AND 7168" 7168 1024] by (simp add: drop_bit_eq_div)
  show "drop_bit 7 (w AND 896) \<le> 7"
    using zdiv_mono1 [of "w AND 896" 896 128] by (simp add: drop_bit_eq_div)
  show "drop_bit 4 (w AND 112) \<le> 7"
    using zdiv_mono1 [of "w AND 112" 112 16] by (simp add: drop_bit_eq_div)
qed

lemma imm7_bounds: fixes w :: int shows "0 \<le> w AND 127" "w AND 127 < 128"
  using AND_upper2 [of 127 w] by simp_all

lemma imm13_bounds: fixes w :: int shows "0 \<le> w AND 8191" "w AND 8191 < 8192"
  using AND_upper2 [of 8191 w] by simp_all

lemma low7: fixes x :: int assumes "0 \<le> x" "x < 128" shows "take_bit 7 x = x"
  using assms by (simp add: take_bit_int_eq_self)

lemma high_and_low7: fixes x :: int assumes "0 \<le> x" "x < 128" shows "NOT 127 AND x = 0"
proof -
  have m: "(127::int) = mask 7" by (simp add: mask_eq_exp_minus_1)
  have "NOT (mask 7) AND take_bit 7 x = (0::int)"
    by (auto simp: bit_eq_iff bit_simps)
  then show ?thesis using low7 [OF assms] by (simp add: m)
qed

lemma xor_127: fixes x :: int assumes "0 \<le> x" "x < 128" shows "x XOR 127 = 127 - x"
  using high_and_low7 [OF assms]
  by (simp add: disjunctive_diff_eq_and_not disjunctive_and_not_eq_xor xor.commute)

lemma or_65408: fixes x :: int assumes "0 \<le> x" "x < 128" shows "65408 OR x = 65408 + x"
proof -
  have "(65408::int) AND NOT 127 = 65408" by simp
  then have "65408 AND x = 65408 AND (NOT 127 AND x)" by (simp only: and.assoc [symmetric])
  then have "65408 AND x = 0" by (simp only: high_and_low7 [OF assms] and_zero_eq)
  then show ?thesis by (simp add: disjunctive_add_eq_or)
qed

lemma bit6: fixes x :: int assumes "0 \<le> x" "x < 128"
  shows "drop_bit 6 x AND 1 = (if x < 64 then 0 else 1)"
proof -
  have "drop_bit 6 x AND 1 = (x div 64) mod 2" by (simp only: and_one_eq drop_bit_eq_div) simp
  also have "\<dots> = (if x < 64 then 0 else 1)" using assms by auto
  finally show ?thesis .
qed

lemma sign_number_converter_7:
  assumes "0 \<le> x" "x < 128"
  shows "sign_number_converter x 7 = (if x < 64 then x else x - 128)"
  using assms by (simp add: sign_number_converter_def bit6 xor_127)

lemma sign_extend_7_val:
  assumes "0 \<le> x" "x < 128"
  shows "sign_extend_7 x = (if x < 64 then x else x + 65408)"
  using assms by (simp add: sign_extend_7_def bit6 or_65408)

lemma signed_take_bit_6:
  fixes x :: int assumes "0 \<le> x" "x < 128"
  shows "signed_take_bit 6 x = (if x < 64 then x else x - 128)"
proof -
  have "x div 64 = (if x < 64 then 0 else 1)" using assms by auto
  then have "bit x 6 \<longleftrightarrow> \<not> x < 64" by (simp add: bit_iff_odd)
  then show ?thesis using low7 [OF assms] by (simp add: signed_take_bit_eq_take_bit_minus)
qed

lemma wrap_negative_imm: "\<not> x < 64 \<Longrightarrow> x < 128 \<Longrightarrow> (x - 128) mod 65536 = x + (65408::int)"
  by (rule int_mod_pos_eq [where q = "- 1"]) simp_all

lemma sign_number_converter_signed:
  assumes "0 \<le> x" "x < 128"
  shows "sign_number_converter x 7 = signed_take_bit 6 x"
  using assms by (simp add: sign_number_converter_7 signed_take_bit_6)

lemma sign_extend_7_signed:
  assumes "0 \<le> x" "x < 128"
  shows "sign_extend_7 x = signed_take_bit 6 x mod 65536"
  using assms by (simp add: sign_extend_7_val signed_take_bit_6 wrap_negative_imm)

lemma imm_signed [simp]:
  "sign_number_converter (w AND 127) 7 = signed_take_bit 6 (w AND 127)"
  "sign_extend_7 (w AND 127) = signed_take_bit 6 (w AND 127) mod 65536"
  by (simp_all add: sign_number_converter_signed sign_extend_7_signed imm7_bounds)

lemma regs0: "replicate 8 (0::int) = [0, 0, 0, 0, 0, 0, 0, 0]"
  by (simp add: numeral_eq_Suc)

subsection \<open>One step keeps the machine well-formed\<close>

lemma fetch:
  "length memory = 8192 \<Longrightarrow> getitem memory (pc mod 8192) = Inr (memory ! nat (pc mod 8192))"
  by (simp add: mem_get)

lemma update_nonzero_reg: "0 \<le> d \<Longrightarrow> d \<noteq> 0 \<Longrightarrow> xs[nat d := v] ! 0 = xs ! 0"
  by simp

lemma two_register_opcodes:
  fixes w :: int
  assumes "drop_bit 13 (w AND 57344) \<noteq> 0" "drop_bit 13 (w AND 57344) \<noteq> 2"
    "drop_bit 13 (w AND 57344) \<noteq> 3"
  shows "drop_bit 13 (w AND 57344) = 1 \<or> drop_bit 13 (w AND 57344) = 4
       \<or> drop_bit 13 (w AND 57344) = 5 \<or> drop_bit 13 (w AND 57344) = 6
       \<or> drop_bit 13 (w AND 57344) = 7"
  using assms field_bounds(1,2) [of w] by linarith

lemma instruction_3R_ok:
  assumes "length regs = 8" "length memory = 8192"
  shows "ok_result regs (instruction_3R w pc regs memory)"
  using assms
  by (simp add: instruction_3R_def Let_def reg_get reg_set valid_pc_def ok_result_def
      update_nonzero_reg)

lemma instruction_0R_ok:
  assumes "length regs = 8" "length memory = 8192"
  shows "ok_result regs (instruction_0R w pc regs memory)"
  using assms
  by (simp add: instruction_0R_def Let_def reg_set valid_pc_def ok_result_def)

lemma instruction_2R_ok:
  assumes "length regs = 8" "length memory = 8192"
    and "drop_bit 13 (w AND 57344) \<noteq> 0" "drop_bit 13 (w AND 57344) \<noteq> 2"
    "drop_bit 13 (w AND 57344) \<noteq> 3"
  shows "ok_result regs (instruction_2R w pc regs memory)"
  using two_register_opcodes [OF assms(3-5)] assms(1,2)
  by (elim disjE)
    (simp_all add: instruction_2R_def Let_def reg_get reg_set mem_get mem_set valid_pc_def
      ok_result_def update_nonzero_reg and_8191_mod)

lemma simulation_ok:
  assumes "length regs = 8" "length memory = 8192"
  shows "ok_result regs (simulation pc regs memory)"
  using assms
  by (simp add: simulation_def fetch instruction_3R_ok instruction_0R_ok instruction_2R_ok)

lemma words_update: "words xs \<Longrightarrow> 0 \<le> v \<Longrightarrow> v < 65536 \<Longrightarrow> words (xs[i := v])"
  unfolding words_def using set_update_subset_insert [of xs i v] by auto

lemma words_nth: "words xs \<Longrightarrow> i < length xs \<Longrightarrow> 0 \<le> xs ! i \<and> xs ! i < 65536"
  by (simp add: words_def)

lemma words_reg: "words regs \<Longrightarrow> length regs = 8 \<Longrightarrow> 0 \<le> r \<Longrightarrow> r \<le> 7 \<Longrightarrow>
    0 \<le> regs ! nat r \<and> regs ! nat r < 65536"
  by (rule words_nth) simp_all

lemma instruction_3R_words:
  assumes "length regs = 8" "words regs" "words memory"
  shows "words_result (instruction_3R w pc regs memory)"
  using assms
  by (simp add: instruction_3R_def Let_def reg_get reg_set words_result_def words_update
      keep_16bits_mod)

lemma instruction_0R_words:
  assumes "length regs = 8" "words regs" "words memory"
  shows "words_result (instruction_0R w pc regs memory)"
  using assms
  by (simp add: instruction_0R_def Let_def reg_set words_result_def words_update keep_16bits_mod)

lemma instruction_2R_words:
  assumes "length regs = 8" "length memory = 8192" "words regs" "words memory"
  shows "words_result (instruction_2R w pc regs memory)"
  using assms
  by (simp add: instruction_2R_def Let_def reg_get reg_set mem_get mem_set words_result_def
      words_update keep_16bits_mod and_8191_mod words_reg)

lemma simulation_words:
  assumes "length regs = 8" "length memory = 8192" "words regs" "words memory"
  shows "words_result (simulation pc regs memory)"
  using assms
  by (simp add: simulation_def fetch instruction_3R_words instruction_0R_words
      instruction_2R_words)

section \<open>The executor\<close>

text \<open>
  Claim C8. A three-register instruction (format selector 000) whose 4-bit opcode is none of
  0000, 0001, 0010, 0011, 0100, 1000 is a silent no-op: the registers and the memory are
  unchanged and the next PC is (PC + 1) mod 65536.
\<close>

theorem unknown_3R_opcode_is_noop:
  assumes "length memory = 8192"
    and "memory ! nat (pc mod 8192) = w"
    and "drop_bit 13 (w AND 57344) = 0"
    and "w AND 15 \<notin> {0, 1, 2, 3, 4, 8}"
  shows "simulation pc regs memory = Inr (Some ((pc + 1) mod 65536, regs, memory))"
  using assms by (simp add: simulation_def fetch instruction_3R_def Let_def valid_pc_def)

theorem unknown_3R_opcode_is_noop_witness:
  "length (1333 # replicate 8191 (0::int)) = 8192
   \<and> (1333 # replicate 8191 (0::int)) ! nat (0 mod 8192) = 1333
   \<and> drop_bit 13 ((1333::int) AND 57344) = 0
   \<and> (1333::int) AND 15 \<notin> {0, 1, 2, 3, 4, 8}
   \<and> simulation 0 [0, 65535, 2, 0, 0, 0, 0, 0] (1333 # replicate 8191 0)
       = Inr (Some (1, [0, 65535, 2, 0, 0, 0, 0, 0], 1333 # replicate 8191 0))"
  using unknown_3R_opcode_is_noop [of "1333 # replicate 8191 0" 0 1333 "[0, 65535, 2, 0, 0, 0, 0, 0]"]
  by simp

text \<open>
  Claim C6. With a destination register other than 0, ADD stores (a + b) mod 65536 and SUB
  stores (a - b) mod 65536 into the destination, \<open>a\<close> and \<open>b\<close> being the values of the two
  source registers, and the next PC is (PC + 1) mod 65536. The witness is ADD(65535, 2) = 1.
\<close>

theorem add_sub_wrap_around:
  assumes "length regs = 8" and "length memory = 8192"
    and "memory ! nat (pc mod 8192) = w"
    and "drop_bit 13 (w AND 57344) = 0"
    and "drop_bit 4 (w AND 112) \<noteq> 0"
  shows "(w AND 15 = 0 \<longrightarrow>
            simulation pc regs memory =
              Inr (Some ((pc + 1) mod 65536,
                regs[nat (drop_bit 4 (w AND 112)) :=
                  (regs ! nat (drop_bit 10 (w AND 7168))
                   + regs ! nat (drop_bit 7 (w AND 896))) mod 65536],
                memory)))
       \<and> (w AND 15 = 1 \<longrightarrow>
            simulation pc regs memory =
              Inr (Some ((pc + 1) mod 65536,
                regs[nat (drop_bit 4 (w AND 112)) :=
                  (regs ! nat (drop_bit 10 (w AND 7168))
                   - regs ! nat (drop_bit 7 (w AND 896))) mod 65536],
                memory)))"
  using assms
  by (simp add: simulation_def fetch instruction_3R_def Let_def valid_pc_def reg_get reg_set
      keep_16bits_mod)

theorem add_sub_wrap_around_witness:
  "length [0, 65535, 2, 0, 0, 0, 0, 0 :: int] = 8
   \<and> length (1328 # replicate 8191 (0::int)) = 8192
   \<and> (1328 # replicate 8191 (0::int)) ! nat (0 mod 8192) = 1328
   \<and> drop_bit 13 ((1328::int) AND 57344) = 0 \<and> drop_bit 4 ((1328::int) AND 112) \<noteq> 0
   \<and> (1328::int) AND 15 = 0
   \<and> simulation 0 [0, 65535, 2, 0, 0, 0, 0, 0] (1328 # replicate 8191 0)
       = Inr (Some (1, [0, 65535, 2, 1, 0, 0, 0, 0], 1328 # replicate 8191 0))"
  using add_sub_wrap_around [of "[0, 65535, 2, 0, 0, 0, 0, 0]" "1328 # replicate 8191 0" 0 1328]
  by simp

text \<open>
  Claim C5. For every 7-bit pattern \<open>x\<close> in 0..127, the 16-bit unsigned form
  \<open>sign_extend_7 x\<close> and the signed integer \<open>sign_number_converter x 7\<close> are congruent
  modulo 65536; the former is a 16-bit word.
\<close>

theorem sign_extensions_agree:
  assumes "0 \<le> x" and "x \<le> 127"
  shows "sign_extend_7 x mod 65536 = sign_number_converter x 7 mod 65536
       \<and> 0 \<le> sign_extend_7 x \<and> sign_extend_7 x < 65536"
  using assms by (simp add: sign_extend_7_val sign_number_converter_7 wrap_negative_imm)

theorem sign_extensions_agree_witness:
  "(0::int) \<le> 127 \<and> (127::int) \<le> 127
   \<and> sign_extend_7 127 = 65535 \<and> sign_number_converter 127 7 = - 1
   \<and> sign_extend_7 127 mod 65536 = sign_number_converter 127 7 mod 65536"
  using sign_extensions_agree [of 127]
  by (simp add: sign_extend_7_def sign_number_converter_def)

text \<open>
  Claim C4, as the code has it. SLTI with a destination register other than 0 stores 1
  exactly when the value of regSrc is less than the 16-bit unsigned sign extension of the
  7-bit immediate, that is its signed value reduced modulo 65536, and 0 otherwise; the next
  PC is (PC + 1) mod 65536. \<open>signed_take_bit 6\<close> is the signed value of a 7-bit
  two's-complement pattern.
\<close>

theorem slti_compares_unsigned:
  assumes "length regs = 8" and "length memory = 8192"
    and "memory ! nat (pc mod 8192) = w"
    and "drop_bit 13 (w AND 57344) = 7"
    and "drop_bit 7 (w AND 896) \<noteq> 0"
  shows "simulation pc regs memory =
           Inr (Some ((pc + 1) mod 65536,
             regs[nat (drop_bit 7 (w AND 896)) :=
               (if regs ! nat (drop_bit 10 (w AND 7168))
                   < signed_take_bit 6 (w AND 127) mod 65536
                then 1 else 0)],
             memory))"
  using assms
  by (simp add: simulation_def fetch instruction_2R_def Let_def valid_pc_def reg_get reg_set)

theorem slti_compares_unsigned_witness:
  "length [0, 0, 0, 0, 0, 0, 0, 0 :: int] = 8
   \<and> length (57599 # replicate 8191 (0::int)) = 8192
   \<and> (57599 # replicate 8191 (0::int)) ! nat (0 mod 8192) = 57599
   \<and> drop_bit 13 ((57599::int) AND 57344) = 7 \<and> drop_bit 7 ((57599::int) AND 896) \<noteq> 0
   \<and> signed_take_bit 6 ((57599::int) AND 127) mod 65536 = 65535
   \<and> simulation 0 [0, 0, 0, 0, 0, 0, 0, 0] (57599 # replicate 8191 0)
       = Inr (Some (1, [0, 1, 0, 0, 0, 0, 0, 0], 57599 # replicate 8191 0))"
  using slti_compares_unsigned [of "[0, 0, 0, 0, 0, 0, 0, 0]" "57599 # replicate 8191 0" 0 57599]
  by (simp add: signed_take_bit_6)

text \<open>
  Claim C4, as stated, fails. The word 57599 is \<^verbatim>\<open>slti $1, $0, -1\<close>. With all registers 0
  the claim compares 0 with the signed value -1 of the immediate and so stores 0; the code
  compares 0 with 65535 and stores 1.
\<close>

theorem slti_signed_counterexample:
  "simulation 0 (replicate 8 0) (57599 # replicate 8191 0)
     = Inr (Some (1, [0, 1, 0, 0, 0, 0, 0, 0], 57599 # replicate 8191 0))
   \<and> drop_bit 13 ((57599::int) AND 57344) = 7
   \<and> drop_bit 10 ((57599::int) AND 7168) = 0
   \<and> drop_bit 7 ((57599::int) AND 896) = 1
   \<and> signed_take_bit 6 ((57599::int) AND 127) = - 1
   \<and> \<not> (replicate 8 (0::int) ! 0 < signed_take_bit 6 ((57599::int) AND 127))"
proof -
  have f: "getitem (57599 # replicate 8191 (0::int)) 0 = Inr 57599"
    by (simp add: getitem_def list_index_def)
  have x: "instruction_2R 57599 0 (replicate 8 0) m = Inr (Some (1, [0, 1, 0, 0, 0, 0, 0, 0], m))"
    for m
    by (simp add: instruction_2R_def Let_def valid_pc_def getitem_def setitem_def list_index_def
        sign_extend_7_def regs0)
  have "simulation 0 (replicate 8 0) (57599 # replicate 8191 0)
     = Inr (Some (1, [0, 1, 0, 0, 0, 0, 0, 0], 57599 # replicate 8191 0))"
    by (simp add: simulation_def f x)
  then show ?thesis by (simp add: signed_take_bit_6)
qed

text \<open>
  Claim C7. The effective address of LW and of SW is (value of regSrc + signed value of the
  7-bit immediate) mod 8192, whatever the register holds, and so lies in 0..8191: LW with a
  destination other than 0 loads the word at that address, SW stores regDst there. (LW with
  destination 0 returns before it computes an address.)
\<close>

theorem lw_sw_effective_address:
  assumes "length regs = 8" and "length memory = 8192"
    and "memory ! nat (pc mod 8192) = w"
  shows "(drop_bit 13 (w AND 57344) = 4 \<and> drop_bit 7 (w AND 896) \<noteq> 0 \<longrightarrow>
            simulation pc regs memory =
              Inr (Some ((pc + 1) mod 65536,
                regs[nat (drop_bit 7 (w AND 896)) :=
                  memory ! nat ((regs ! nat (drop_bit 10 (w AND 7168))
                                 + signed_take_bit 6 (w AND 127)) mod 8192) mod 65536],
                memory)))
       \<and> (drop_bit 13 (w AND 57344) = 5 \<longrightarrow>
            simulation pc regs memory =
              Inr (Some ((pc + 1) mod 65536, regs,
                memory[nat ((regs ! nat (drop_bit 10 (w AND 7168))
                             + signed_take_bit 6 (w AND 127)) mod 8192) :=
                  regs ! nat (drop_bit 7 (w AND 896))])))
       \<and> (regs ! nat (drop_bit 10 (w AND 7168)) + sign_number_converter (w AND 127) 7) AND 8191
           = (regs ! nat (drop_bit 10 (w AND 7168)) + signed_take_bit 6 (w AND 127)) mod 8192
       \<and> 0 \<le> (regs ! nat (drop_bit 10 (w AND 7168)) + signed_take_bit 6 (w AND 127)) mod 8192
       \<and> (regs ! nat (drop_bit 10 (w AND 7168)) + signed_take_bit 6 (w AND 127)) mod 8192 < 8192"
  using assms
  by (simp add: simulation_def fetch instruction_2R_def Let_def valid_pc_def reg_get reg_set
      mem_get mem_set and_8191_mod keep_16bits_mod)

theorem lw_sw_effective_address_witness:
  "length [0, 65535, 7, 0, 0, 0, 0, 0 :: int] = 8
   \<and> length (42241 # replicate 8191 (0::int)) = 8192
   \<and> (42241 # replicate 8191 (0::int)) ! nat (0 mod 8192) = 42241
   \<and> drop_bit 13 ((42241::int) AND 57344) = 5
   \<and> drop_bit 10 ((42241::int) AND 7168) = 1
   \<and> drop_bit 7 ((42241::int) AND 896) = 2
   \<and> signed_take_bit 6 ((42241::int) AND 127) = 1
   \<and> simulation 0 [0, 65535, 7, 0, 0, 0, 0, 0] (42241 # replicate 8191 0)
       = Inr (Some (1, [0, 65535, 7, 0, 0, 0, 0, 0], 7 # replicate 8191 0))"
  using lw_sw_effective_address [of "[0, 65535, 7, 0, 0, 0, 0, 0]" "42241 # replicate 8191 0" 0 42241]
  by (simp add: signed_take_bit_6)

text \<open>
  Claim C10. One simulation step is total: for a PC in 0..65535, eight registers in 0..65535
  and 8192 memory words in 0..65535, the step raises nothing and does not take the path
  without \<^verbatim>\<open>return\<close>; its next PC is in 0..65535, and the registers and the memory keep
  their sizes and ranges. Every register index decoded from the fetched word \<open>w\<close> is in
  0..7, and the memory indices used, \<open>pc mod 8192\<close> and the address of LW and SW, are in
  0..8191.
\<close>

theorem simulation_total:
  assumes "0 \<le> pc" and "pc < 65536"
    and "length regs = 8" and "\<forall>r\<in>set regs. 0 \<le> r \<and> r < 65536"
    and "length memory = 8192" and "\<forall>w\<in>set memory. 0 \<le> w \<and> w < 65536"
    and "memory ! nat (pc mod 8192) = w"
  shows "(\<exists>pc' regs' memory'.
            simulation pc regs memory = Inr (Some (pc', regs', memory'))
            \<and> 0 \<le> pc' \<and> pc' < 65536
            \<and> length regs' = 8 \<and> (\<forall>r\<in>set regs'. 0 \<le> r \<and> r < 65536)
            \<and> length memory' = 8192 \<and> (\<forall>w\<in>set memory'. 0 \<le> w \<and> w < 65536))
       \<and> 0 \<le> pc mod 8192 \<and> pc mod 8192 < 8192
       \<and> 0 \<le> drop_bit 10 (w AND 7168) \<and> drop_bit 10 (w AND 7168) \<le> 7
       \<and> 0 \<le> drop_bit 7 (w AND 896) \<and> drop_bit 7 (w AND 896) \<le> 7
       \<and> 0 \<le> drop_bit 4 (w AND 112) \<and> drop_bit 4 (w AND 112) \<le> 7
       \<and> 0 \<le> (regs ! nat (drop_bit 10 (w AND 7168)) + sign_number_converter (w AND 127) 7)
                 AND 8191
       \<and> (regs ! nat (drop_bit 10 (w AND 7168)) + sign_number_converter (w AND 127) 7)
             AND 8191 < 8192"
proof -
  have ok: "ok_result regs (simulation pc regs memory)"
    using assms(3,5) by (rule simulation_ok)
  have ws: "words_result (simulation pc regs memory)"
    using assms(3-6) by (simp add: simulation_words words_def)
  have "\<exists>pc' regs' memory'.
            simulation pc regs memory = Inr (Some (pc', regs', memory'))
            \<and> 0 \<le> pc' \<and> pc' < 65536
            \<and> length regs' = 8 \<and> (\<forall>r\<in>set regs'. 0 \<le> r \<and> r < 65536)
            \<and> length memory' = 8192 \<and> (\<forall>w\<in>set memory'. 0 \<le> w \<and> w < 65536)"
    using ok ws
    by (auto simp: ok_result_def words_result_def words_def split: sum.splits option.splits)
  moreover have "0 \<le> pc mod 8192 \<and> pc mod 8192 < 8192" by simp
  moreover note field_bounds(3-8) [of w] imm13_bounds
  ultimately show ?thesis by blast
qed

theorem simulation_total_witness:
  "(0::int) \<le> 0 \<and> (0::int) < 65536
   \<and> length (replicate 8 (0::int)) = 8 \<and> set (replicate 8 (0::int)) \<subseteq> {0..65535}
   \<and> length (42241 # replicate 8191 (0::int)) = 8192
   \<and> set (42241 # replicate 8191 (0::int)) \<subseteq> {0..65535}
   \<and> (42241 # replicate 8191 (0::int)) ! nat (0 mod 8192) = 42241
   \<and> (\<exists>pc' regs' memory'.
         simulation 0 (replicate 8 0) (42241 # replicate 8191 0) = Inr (Some (pc', regs', memory'))
         \<and> 0 \<le> pc' \<and> pc' < 65536
         \<and> length regs' = 8 \<and> (\<forall>r\<in>set regs'. 0 \<le> r \<and> r < 65536)
         \<and> length memory' = 8192 \<and> (\<forall>w\<in>set memory'. 0 \<le> w \<and> w < 65536))"
proof -
  have h: "(0::int) \<le> 0" "(0::int) < 65536" "length (replicate 8 (0::int)) = 8"
    "\<forall>r\<in>set (replicate 8 (0::int)). 0 \<le> r \<and> r < 65536"
    "length (42241 # replicate 8191 (0::int)) = 8192"
    "\<forall>w\<in>set (42241 # replicate 8191 (0::int)). 0 \<le> w \<and> w < 65536"
    "(42241 # replicate 8191 (0::int)) ! nat (0 mod 8192) = 42241"
    by simp_all
  have s: "set (replicate 8 (0::int)) \<subseteq> {0..65535}"
    "set (42241 # replicate 8191 (0::int)) \<subseteq> {0..65535}"
    by simp_all
  from simulation_total [OF h] h(1-3,5,7) s show ?thesis by blast
qed

section \<open>The run loop\<close>

subsection \<open>The loop keeps the machine well-formed\<close>

lemma loop_body_ok:
  assumes "machine_ok s"
  shows "\<exists>out. loop_body s = Inr out \<and> machine_ok (outcome_state out)"
proof -
  obtain pc regs memory where s: "s = (pc, regs, memory)" by (cases s)
  with assms have l: "length regs = 8" "length memory = 8192" and z: "regs ! 0 = 0"
    by (simp_all add: machine_ok_def)
  from simulation_ok [OF l, of pc] obtain pc' regs' memory'
    where r: "simulation pc regs memory = Inr (Some (pc', regs', memory'))"
      and l': "length regs' = 8" "length memory' = 8192" and z': "regs' ! 0 = regs ! 0"
    by (auto simp: ok_result_def split: sum.splits option.splits)
  have g: "getitem memory' (pc mod 8191) = Inr (memory' ! nat (pc mod 8191))"
    using l' by (simp add: getitem_in_range)
  show ?thesis
    using l' z z' by (simp add: s loop_body_def r g machine_ok_def)
qed

lemma run_loop_ok:
  "machine_ok s \<Longrightarrow> \<exists>out. run_loop n s = Inr out \<and> machine_ok (outcome_state out)"
proof (induction n arbitrary: s)
  case 0
  then show ?case by simp
next
  case (Suc n)
  from loop_body_ok [OF Suc.prems] obtain out
    where b: "loop_body s = Inr out" and m: "machine_ok (outcome_state out)" by blast
  show ?case
  proof (cases out)
    case (Halted s')
    with b m show ?thesis by simp
  next
    case (Running s')
    with m have "machine_ok s'" by simp
    from Suc.IH [OF this] b Running show ?thesis by simp
  qed
qed

lemma initial_ok: "length memory = 8192 \<Longrightarrow> machine_ok (initial memory)"
  by (simp add: machine_ok_def initial_def)

text \<open>
  Claim C2. From the zero-initialised state, for every program (any memory of 8192 cells),
  the loop never raises and register 0 holds 0 after every number of iterations. An
  instruction of the three-register or of the two-register format whose destination field
  is 0 leaves the registers as they are and gives the next PC it gives for any destination:
  the register for JR, the branch target for a taken JEQ, (PC + 1) mod 65536 otherwise.
\<close>

theorem register_zero_stays_zero:
  assumes "length memory = 8192"
  shows "(\<exists>out. run_loop n (initial memory) = Inr out \<and> fst (snd (outcome_state out)) ! 0 = 0)
       \<and> (length regs = 8 \<and> length mem = 8192 \<and> mem ! nat (pc mod 8192) = w \<longrightarrow>
            (drop_bit 13 (w AND 57344) = 0 \<and> drop_bit 4 (w AND 112) = 0 \<longrightarrow>
               simulation pc regs mem =
                 Inr (Some (if w AND 15 = 8 then regs ! nat (drop_bit 10 (w AND 7168)) mod 65536
                            else (pc + 1) mod 65536,
                            regs, mem)))
          \<and> (drop_bit 13 (w AND 57344) \<notin> {0, 2, 3} \<and> drop_bit 7 (w AND 896) = 0 \<longrightarrow>
               simulation pc regs mem =
                 Inr (Some (if drop_bit 13 (w AND 57344) = 6
                               \<and> regs ! nat (drop_bit 10 (w AND 7168)) = regs ! 0
                            then (pc + 1 + signed_take_bit 6 (w AND 127)) mod 65536
                            else (pc + 1) mod 65536,
                            regs,
                            if drop_bit 13 (w AND 57344) = 5
                            then mem[nat ((regs ! nat (drop_bit 10 (w AND 7168))
                                           + signed_take_bit 6 (w AND 127)) mod 8192) := regs ! 0]
                            else mem))))"
proof -
  from run_loop_ok [OF initial_ok [OF assms], of n]
  have a: "\<exists>out. run_loop n (initial memory) = Inr out \<and> fst (snd (outcome_state out)) ! 0 = 0"
    by (auto simp: machine_ok_def)
  have b: "simulation pc regs mem =
                 Inr (Some (if w AND 15 = 8 then regs ! nat (drop_bit 10 (w AND 7168)) mod 65536
                            else (pc + 1) mod 65536,
                            regs, mem))"
    if "length regs = 8" "length mem = 8192" "mem ! nat (pc mod 8192) = w"
      "drop_bit 13 (w AND 57344) = 0" "drop_bit 4 (w AND 112) = 0"
    using that
    by (simp add: simulation_def fetch instruction_3R_def Let_def valid_pc_def reg_get)
  have c: "simulation pc regs mem =
                 Inr (Some (if drop_bit 13 (w AND 57344) = 6
                               \<and> regs ! nat (drop_bit 10 (w AND 7168)) = regs ! 0
                            then (pc + 1 + signed_take_bit 6 (w AND 127)) mod 65536
                            else (pc + 1) mod 65536,
                            regs,
                            if drop_bit 13 (w AND 57344) = 5
                            then mem[nat ((regs ! nat (drop_bit 10 (w AND 7168))
                                           + signed_take_bit 6 (w AND 127)) mod 8192) := regs ! 0]
                            else mem))"
    if l: "length regs = 8" "length mem = 8192" "mem ! nat (pc mod 8192) = w"
      and o: "drop_bit 13 (w AND 57344) \<noteq> 0" "drop_bit 13 (w AND 57344) \<noteq> 2"
        "drop_bit 13 (w AND 57344) \<noteq> 3"
      and d: "drop_bit 7 (w AND 896) = 0"
    using two_register_opcodes [OF o] l d
    by (elim disjE)
      (simp_all add: simulation_def fetch instruction_2R_def Let_def valid_pc_def reg_get
        mem_set and_8191_mod)
  from a b c show ?thesis by simp
qed

theorem register_zero_stays_zero_witness:
  "length (8197 # 16385 # replicate 8190 (0::int)) = 8192
   \<and> run_loop 2 (initial (8197 # 16385 # replicate 8190 0))
       = Inr (Halted (1, [0, 0, 0, 0, 0, 0, 0, 0], 8197 # 16385 # replicate 8190 0))
   \<and> fst (snd (outcome_state
         (Halted (1, [0, 0, 0, 0, 0, 0, 0, 0], 8197 # 16385 # replicate 8190 0)))) ! 0 = (0::int)
   \<and> length [0, 0, 0, 0, 0, 0, 0, 0 :: int] = 8
   \<and> (8197 # 16385 # replicate 8190 (0::int)) ! nat (0 mod 8192) = 8197
   \<and> drop_bit 13 ((8197::int) AND 57344) \<notin> {0, 2, 3}
   \<and> drop_bit 7 ((8197::int) AND 896) = 0
   \<and> simulation 0 [0, 0, 0, 0, 0, 0, 0, 0] (8197 # 16385 # replicate 8190 0)
       = Inr (Some (1, [0, 0, 0, 0, 0, 0, 0, 0], 8197 # 16385 # replicate 8190 0))"
proof -
  let ?m = "8197 # 16385 # replicate 8190 (0::int)"
  let ?r = "[0, 0, 0, 0, 0, 0, 0, 0 :: int]"
  have f0: "getitem ?m 0 = Inr 8197" and f1: "getitem ?m 1 = Inr 16385"
    by (simp_all add: getitem_def list_index_def)
  have s1: "simulation 1 ?r ?m = Inr (Some (1, ?r, ?m))"
    by (simp add: simulation_def f1 instruction_0R_def valid_pc_def)
  have b1: "loop_body (1, ?r, ?m) = Inr (Halted (1, ?r, ?m))"
    by (simp add: loop_body_def s1 f1)
  have s0: "simulation 0 ?r ?m = Inr (Some (1, ?r, ?m))"
    using register_zero_stays_zero [of ?m 2 ?r ?m 0 8197] by simp
  have b0: "loop_body (0, ?r, ?m) = Inr (Running (1, ?r, ?m))"
    by (simp add: loop_body_def s0)
  have two: "(2::nat) = Suc (Suc 0)" by simp
  have "run_loop 2 (initial ?m) = Inr (Halted (1, ?r, ?m))"
    by (simp add: two initial_def regs0 b0 b1)
  with s0 show ?thesis by simp
qed

subsection \<open>The halt check at the last address\<close>

lemma run_loop_add:
  "run_loop (a + b) s =
     ebind (run_loop a s) (\<lambda>out.
       case out of Halted s' \<Rightarrow> Inr (Halted s') | Running s' \<Rightarrow> run_loop b s')"
proof (induction a arbitrary: s)
  case 0
  show ?case by simp
next
  case (Suc a)
  show ?case
  proof (cases "loop_body s")
    case (Inl e)
    then show ?thesis by simp
  next
    case (Inr out)
    then show ?thesis using Suc.IH by (cases out) simp_all
  qed
qed

lemma nop_step:
  assumes "k < 8191"
  shows "loop_body (int k, regs, replicate 8191 0 @ [24575])
         = Inr (Running (int (Suc k), regs, replicate 8191 0 @ [24575]))"
proof -
  have f: "getitem (replicate 8191 0 @ [24575]) (int k) = Inr (0::int)"
    using assms by (simp add: getitem_def list_index_def nth_append)
  have s: "simulation (int k) regs (replicate 8191 0 @ [24575])
           = Inr (Some (int (Suc k), regs, replicate 8191 0 @ [24575]))"
    using assms by (simp add: simulation_def f instruction_3R_def valid_pc_def)
  show ?thesis by (simp add: loop_body_def s)
qed

lemma nop_steps:
  "k + n \<le> 8191 \<Longrightarrow>
   run_loop n (int k, regs, replicate 8191 0 @ [24575])
   = Inr (Running (int (k + n), regs, replicate 8191 0 @ [24575]))"
proof (induction n arbitrary: k)
  case 0
  show ?case by simp
next
  case (Suc n)
  from Suc.prems have k: "k < 8191" and kn: "Suc k + n \<le> 8191" by simp_all
  have "run_loop (Suc n) (int k, regs, replicate 8191 0 @ [24575])
        = run_loop n (int (Suc k), regs, replicate 8191 0 @ [24575])"
    by (simp only: run_loop.simps nop_step [OF k] ebind_Inr outcome.case)
  also have "\<dots> = Inr (Running (int (Suc k + n), regs, replicate 8191 0 @ [24575]))"
    by (rule Suc.IH [OF kn])
  finally show ?case by simp
qed

lemma last_address_simulation:
  "simulation 8191 regs (replicate 8191 0 @ [24575])
   = Inr (Some (8191, regs, replicate 8191 0 @ [24575]))"
proof -
  have f: "getitem (replicate 8191 0 @ [24575]) 8191 = Inr (24575::int)"
    by (simp add: getitem_def list_index_def nth_append)
  show ?thesis by (simp add: simulation_def f instruction_0R_def valid_pc_def)
qed

lemma last_address_step:
  "loop_body (8191, regs, replicate 8191 0 @ [24575])
   = Inr (Running (8191, regs, replicate 8191 0 @ [24575]))"
proof -
  have g: "getitem (replicate 8191 0 @ [24575]) 0 = Inr (0::int)"
    by (simp add: getitem_def list_index_def nth_append)
  show ?thesis by (simp add: loop_body_def last_address_simulation g)
qed

lemma last_address_forever:
  "run_loop n (8191, regs, replicate 8191 0 @ [24575])
   = Inr (Running (8191, regs, replicate 8191 0 @ [24575]))"
  by (induction n) (simp_all add: last_address_step)

text \<open>
  Claim C1 fails at the last address. The program is 8191 zero words (each \<^verbatim>\<open>add $0,$0,$0\<close>)
  and, at address 8191, the word 24575, \<^verbatim>\<open>j 8191\<close>. After 8191 iterations the PC is 8191;
  there the executor returns the same PC and the fetched word has format selector 010, yet
  the loop never halts: its check reads \<^verbatim>\<open>memory[8191 % 8191]\<close>, the word at address 0.
\<close>

theorem self_jump_at_last_address_never_halts:
  "run_loop (8191 + n) (initial (replicate 8191 0 @ [24575]))
     = Inr (Running (8191, replicate 8 0, replicate 8191 0 @ [24575]))
   \<and> simulation 8191 (replicate 8 0) (replicate 8191 0 @ [24575])
     = Inr (Some (8191, replicate 8 0, replicate 8191 0 @ [24575]))
   \<and> drop_bit 13 (((replicate 8191 0 @ [24575]) ! nat (8191 mod 8192)) AND 57344) = (2::int)"
proof -
  have "run_loop 8191 (int 0, replicate 8 0, replicate 8191 0 @ [24575])
        = Inr (Running (int (0 + 8191), replicate 8 0, replicate 8191 0 @ [24575]))"
    by (rule nop_steps) simp
  then have "run_loop 8191 (initial (replicate 8191 0 @ [24575]))
        = Inr (Running (8191, replicate 8 0, replicate 8191 0 @ [24575]))"
    by (simp add: initial_def)
  then have "run_loop (8191 + n) (initial (replicate 8191 0 @ [24575]))
     = Inr (Running (8191, replicate 8 0, replicate 8191 0 @ [24575]))"
    by (simp only: run_loop_add) (simp add: last_address_forever)
  moreover have "drop_bit 13 (((replicate 8191 0 @ [24575]) ! nat (8191 mod 8192)) AND 57344)
      = (2::int)"
    by (simp add: nth_append)
  ultimately show ?thesis by (simp only: last_address_simulation simp_thms)
qed

text \<open>
  Claim C3 fails at the last address. The program has \<^verbatim>\<open>j 8191\<close> (24575) at address 0 and
  \<^verbatim>\<open>jal 8191\<close> (32767) at address 8191. The second iteration executes the JAL, format
  selector 011, whose immediate is its own address; the halt check reads the word at
  address 0, a J, and the loop halts.
\<close>

theorem jal_self_jump_at_last_address_halts:
  "run_loop 2 (initial (24575 # replicate 8190 0 @ [32767]))
     = Inr (Halted (8191, [0, 0, 0, 0, 0, 0, 0, 8192], 24575 # replicate 8190 0 @ [32767]))
   \<and> drop_bit 13 (((24575 # replicate 8190 0 @ [32767]) ! nat (8191 mod 8192)) AND 57344) = (3::int)
   \<and> ((24575 # replicate 8190 0 @ [32767]) ! nat (8191 mod 8192)) AND 8191 = (8191::int)"
proof -
  let ?m = "24575 # replicate 8190 0 @ [32767::int]"
  have f0: "getitem ?m 0 = Inr 24575"
    by (simp add: getitem_def list_index_def)
  have n0: "(replicate 8190 0 @ [32767::int]) ! 8190 = 32767"
    by (rule nth_append_length [of "replicate 8190 (0::int)" 32767 "[]", unfolded length_replicate])
  have f1: "getitem ?m 8191 = Inr 32767"
    by (simp add: getitem_def list_index_def n0)
  have s0: "simulation 0 (replicate 8 0) ?m = Inr (Some (8191, replicate 8 0, ?m))"
    by (simp add: simulation_def f0 instruction_0R_def valid_pc_def)
  have b0: "loop_body (0, replicate 8 0, ?m) = Inr (Running (8191, replicate 8 0, ?m))"
    by (simp add: loop_body_def s0)
  have s1: "simulation 8191 (replicate 8 0) ?m
            = Inr (Some (8191, [0, 0, 0, 0, 0, 0, 0, 8192], ?m))"
    by (simp add: simulation_def f1 instruction_0R_def valid_pc_def keep_16bits_mod setitem_def
        list_index_def regs0)
  have b1: "loop_body (8191, replicate 8 0, ?m)
            = Inr (Halted (8191, [0, 0, 0, 0, 0, 0, 0, 8192], ?m))"
    by (simp add: loop_body_def s1 f0)
  have two: "(2::nat) = Suc (Suc 0)" by simp
  have "run_loop 2 (initial ?m) = Inr (Halted (8191, [0, 0, 0, 0, 0, 0, 0, 8192], ?m))"
    by (simp add: two initial_def b0 b1)
  moreover have "?m ! nat (8191 mod 8192) = 32767" by (simp add: n0)
  ultimately show ?thesis by simp
qed

section \<open>The loader\<close>

lemma is_digit_cases:
  "is_digit c \<longleftrightarrow> c = CHR ''0'' \<or> c = CHR ''1'' \<or> c = CHR ''2'' \<or> c = CHR ''3''
     \<or> c = CHR ''4'' \<or> c = CHR ''5'' \<or> c = CHR ''6'' \<or> c = CHR ''7'' \<or> c = CHR ''8''
     \<or> c = CHR ''9''"
  by (simp add: is_digit_def)

lemma digit_below_10: "is_digit c \<Longrightarrow> digit_value c < 10"
  by (auto simp: is_digit_cases digit_value_def)

lemma digit_below_2: "is_digit c \<Longrightarrow> digit_value c < 2 \<longleftrightarrow> is_binary c"
  by (auto simp: is_digit_cases digit_value_def is_binary_def)

lemma takeWhile_all_self: "list_all P xs \<Longrightarrow> takeWhile P xs = xs"
  by (simp add: list_all_iff)

lemma py_int_10:
  assumes "s \<noteq> []" "list_all is_digit s"
  shows "py_int s 10 = (if length s > max_str_digits then Inl (DigitLimit (length s))
                        else Inr (digits_value 10 s))"
proof -
  have v: "list_all (\<lambda>c. is_digit c \<and> digit_value c < 10) s"
    using assms(2) by (auto simp: list_all_iff digit_below_10)
  have p: "(10::int) AND (10 - 1) \<noteq> 0" by simp
  show ?thesis
    unfolding py_int_def Let_def takeWhile_all_self [OF v] using assms(1) v p by simp
qed

lemma py_int_2:
  "s \<noteq> [] \<Longrightarrow> list_all is_digit s \<Longrightarrow>
   py_int s 2 = (if list_all is_binary s then Inr (digits_value 2 s) else Inl (InvalidLiteral s))"
  by (auto simp: py_int_def list_all_iff digit_below_2)

lemma takeWhile_all: "list_all P (takeWhile P xs)"
  by (induction xs) simp_all

lemma match_groups:
  assumes "machine_code_re_match line = Some (a, b)"
  shows "a \<noteq> [] \<and> list_all is_digit a \<and> b \<noteq> [] \<and> list_all is_digit b"
  using assms
  by (auto simp: machine_code_re_match_def takeWhile_all split: option.splits if_splits)

lemma load_step_rejected:
  assumes "line_error (length mem) k line = Some e"
  shows "load_loop (line # rest) (int k) mem = (Some e, mem)"
proof (cases "machine_code_re_match line")
  case None
  with assms show ?thesis by (simp add: line_error_def)
next
  case (Some g)
  obtain a b where g: "g = (a, b)" by (cases g)
  from match_groups [OF Some [unfolded g]]
  have "py_int a 10 = (if length a > max_str_digits then Inl (DigitLimit (length a))
                        else Inr (digits_value 10 a))"
    and "py_int b 2 = (if list_all is_binary b then Inr (digits_value 2 b)
                       else Inl (InvalidLiteral b))"
    by (simp_all add: py_int_10 py_int_2)
  with assms Some g show ?thesis
    by (simp add: line_error_def split: if_splits)
qed

lemma load_step_accepted:
  assumes "line_error (length mem) k line = None"
  shows "k < length mem"
    and "load_loop (line # rest) (int k) mem
         = load_loop rest (int (Suc k)) (mem[k := line_word line])"
proof -
  from assms obtain a b where m: "machine_code_re_match line = Some (a, b)"
    by (auto simp: line_error_def split: option.splits)
  from assms m have ok: "\<not> length a > max_str_digits" "list_all is_binary b"
    "digits_value 10 a = int k" "digits_value 10 a < int (length mem)"
    by (simp_all add: line_error_def split: if_splits)
  then show k: "k < length mem" by simp
  from match_groups [OF m]
  have p: "py_int a 10 = Inr (int k)" "py_int b 2 = Inr (digits_value 2 b)"
    using ok by (simp_all add: py_int_10 py_int_2)
  have s: "setitem mem (int k) v = Inr (mem[k := v])" for v
    using k by (simp add: setitem_in_range)
  have e: "int k + 1 = int (Suc k)" by simp
  have "load_loop (line # rest) (int k) mem
         = load_loop rest (int k + 1) (mem[k := line_word line])"
    using k by (simp add: m p s line_word_def)
  then show "load_loop (line # rest) (int k) mem
         = load_loop rest (int (Suc k)) (mem[k := line_word line])"
    by (simp only: e)
qed

lemma load_loop_length: "length (snd (load_loop lines k mem)) = length mem"
proof (induction lines arbitrary: k mem)
  case Nil
  show ?case by simp
next
  case (Cons line lines)
  show ?case
    by (simp add: Cons.IH setitem_def list_index_def ebind_def
        split: option.splits sum.splits prod.splits if_splits)
qed

declare load_loop.simps(2) [simp del]

lemma load_loop_prefix:
  assumes "i \<le> length lines"
    and "\<forall>j<i. line_error (length mem) (k + j) (lines ! j) = None"
    and "i < length lines \<longrightarrow> line_error (length mem) (k + i) (lines ! i) \<noteq> None"
  shows "load_loop lines (int k) mem
         = (if i < length lines then line_error (length mem) (k + i) (lines ! i) else None,
            take k mem @ map line_word (take i lines) @ drop (k + i) mem)"
  using assms
proof (induction lines arbitrary: i k mem)
  case Nil
  then show ?case by simp
next
  case (Cons line lines)
  show ?case
  proof (cases i)
    case 0
    with Cons.prems obtain e where "line_error (length mem) k line = Some e" by auto
    with 0 show ?thesis by (simp add: load_step_rejected)
  next
    case (Suc i')
    with Cons.prems have acc: "line_error (length mem) k line = None" by auto
    note st = load_step_accepted [OF acc]
    let ?mem = "mem[k := line_word line]"
    have p: "i' \<le> length lines" using Cons.prems Suc by simp
    have q: "\<forall>j<i'. line_error (length ?mem) (Suc k + j) (lines ! j) = None"
    proof (intro allI impI)
      fix j assume "j < i'"
      then have "Suc j < i" using Suc by simp
      with Cons.prems(2) have "line_error (length mem) (k + Suc j) ((line # lines) ! Suc j) = None"
        by blast
      then show "line_error (length ?mem) (Suc k + j) (lines ! j) = None" by simp
    qed
    have r: "i' < length lines \<longrightarrow> line_error (length ?mem) (Suc k + i') (lines ! i') \<noteq> None"
      using Cons.prems(3) Suc by simp
    have t: "take (Suc k) ?mem = take k mem @ [line_word line]"
      using st(1) by (simp add: take_Suc_conv_app_nth)
    have d: "drop (Suc k + i') ?mem = drop (Suc k + i') mem" by simp
    show ?thesis
      using Cons.IH [OF p q r] Suc
      by (simp add: st(2) t d)
  qed
qed

lemma load_loop_fails_iff:
  "fst (load_loop lines (int k) mem) \<noteq> None
   \<longleftrightarrow> (\<exists>j<length lines. line_error (length mem) (k + j) (lines ! j) \<noteq> None)"
proof (induction lines arbitrary: k mem)
  case Nil
  show ?case by simp
next
  case (Cons line lines)
  show ?case
  proof (cases "line_error (length mem) k line")
    case (Some e)
    then have "line_error (length mem) (k + 0) ((line # lines) ! 0) \<noteq> None" by simp
    then have "\<exists>j<length (line # lines). line_error (length mem) (k + j) ((line # lines) ! j) \<noteq> None"
      by (intro exI [of _ 0]) simp
    then show ?thesis by (simp add: load_step_rejected [OF Some])
  next
    case None
    note st = load_step_accepted [OF None]
    have "(\<exists>j<length (line # lines). line_error (length mem) (k + j) ((line # lines) ! j) \<noteq> None)
        \<longleftrightarrow> (\<exists>j<length lines. line_error (length mem) (Suc k + j) (lines ! j) \<noteq> None)"
      (is "?l \<longleftrightarrow> ?r")
    proof
      assume ?l
      then obtain j where j: "j < length (line # lines)"
        "line_error (length mem) (k + j) ((line # lines) ! j) \<noteq> None" by blast
      with None obtain j' where "j = Suc j'" by (cases j) simp_all
      with j show ?r by (intro exI [of _ j']) simp
    next
      assume ?r
      then obtain j where "j < length lines"
        "line_error (length mem) (Suc k + j) (lines ! j) \<noteq> None" by blast
      then show ?l by (intro exI [of _ "Suc j"]) simp
    qed
    then show ?thesis
      using Cons.IH [of "Suc k" "mem[k := line_word line]"] by (simp add: st(2))
  qed
qed

lemma main_never_raises_in_the_loop:
  "case fst (load_machine_code lines (replicate 8192 0)) of
     Some e \<Rightarrow> main fuel lines = Inl e
   | None \<Rightarrow> (\<exists>out. main fuel lines = Inr out)"
proof (cases "load_machine_code lines (replicate 8192 0)")
  case (Pair r memory)
  have "length (snd (load_machine_code lines (replicate 8192 0))) = 8192"
    by (simp add: load_machine_code_def load_loop_length)
  with Pair have "machine_ok (initial memory)" by (simp add: initial_ok)
  from run_loop_ok [OF this, of fuel] obtain out where "run_loop fuel (initial memory) = Inr out"
    by blast
  with Pair show ?thesis by (cases r) (simp_all add: main_def)
qed

text \<open>
  Claim C9, as the code has it, for files whose lines are ASCII. The loader raises exactly
  when some line is turned down by \<open>line_error\<close>: the regular expression
  \<^verbatim>\<open>^ram\[(\d+)\] = 16'b(\d+);.*$\<close> does not match it, or its address is written with more
  than 4300 digits, or a digit after \<^verbatim>\<open>16'b\<close> is not binary, or its address is not its
  zero-based position in the file, or its address is at or beyond the length of the memory.
  It raises at the first such line \<open>i\<close>, with that line's error, and the memory then holds
  the words of the \<open>i\<close> lines before it and is otherwise untouched; when no line is turned
  down it returns with all words stored. \<^verbatim>\<open>main\<close> ends with the loader's error, or else its
  loop raises nothing, whatever the fuel.
\<close>

theorem loader_fails_iff:
  "(fst (load_machine_code lines mem) \<noteq> None
      \<longleftrightarrow> (\<exists>i<length lines. line_error (length mem) i (lines ! i) \<noteq> None))
   \<and> (i \<le> length lines
        \<and> (\<forall>j<i. line_error (length mem) j (lines ! j) = None)
        \<and> (i < length lines \<longrightarrow> line_error (length mem) i (lines ! i) \<noteq> None)
      \<longrightarrow> load_machine_code lines mem
          = (if i < length lines then line_error (length mem) i (lines ! i) else None,
             map line_word (take i lines) @ drop i mem))
   \<and> (case fst (load_machine_code lines (replicate 8192 0)) of
         Some e \<Rightarrow> main fuel lines = Inl e
       | None \<Rightarrow> (\<exists>out. main fuel lines = Inr out))"
proof -
  have a: "fst (load_machine_code lines mem) \<noteq> None
      \<longleftrightarrow> (\<exists>i<length lines. line_error (length mem) i (lines ! i) \<noteq> None)"
    using load_loop_fails_iff [where lines = lines and k = 0 and mem = mem] by (simp add: load_machine_code_def)
  have b: "load_machine_code lines mem
          = (if i < length lines then line_error (length mem) i (lines ! i) else None,
             map line_word (take i lines) @ drop i mem)"
    if "i \<le> length lines" "\<forall>j<i. line_error (length mem) j (lines ! j) = None"
      "i < length lines \<longrightarrow> line_error (length mem) i (lines ! i) \<noteq> None"
    using load_loop_prefix [where i = i and lines = lines and mem = mem and k = 0] that by (simp add: load_machine_code_def)
  from a b main_never_raises_in_the_loop [where lines = lines and fuel = fuel] show ?thesis by blast
qed

lemma match_line0: "machine_code_re_match ''ram[0] = 16'b0010000010000101;'' = Some (''0'', ''0010000010000101'')"
  by (simp add: machine_code_re_match_def is_digit_def)

lemma match_line1: "machine_code_re_match ''ram[1] = 16'b0100000000000001;'' = Some (''1'', ''0100000000000001'')"
  by (simp add: machine_code_re_match_def is_digit_def)

lemma match_line3: "machine_code_re_match ''ram[3] = 16'b0000000000000000;'' = Some (''3'', ''0000000000000000'')"
  by (simp add: machine_code_re_match_def is_digit_def)

lemma errs:
  "line_error 8192 0 ''ram[0] = 16'b0010000010000101;'' = None"
  "line_error 8192 1 ''ram[1] = 16'b0100000000000001;'' = None"
  "line_error 8192 2 ''ram[3] = 16'b0000000000000000;'' = Some (OutOfSequence 3)"
  by (simp_all add: line_error_def match_line0 match_line1 match_line3 is_binary_def
      digits_value_def digit_value_def max_str_digits_def)

lemma errs_Suc: "line_error 8192 (Suc 0) ''ram[1] = 16'b0100000000000001;'' = None"
  using errs(2) by simp

lemma wds:
  "line_word ''ram[0] = 16'b0010000010000101;'' = 8325"
  "line_word ''ram[1] = 16'b0100000000000001;'' = 16385"
  by (simp_all add: line_word_def match_line0 match_line1 digits_value_def digit_value_def)

theorem loader_fails_iff_witness:
  "(2::nat) \<le> length [''ram[0] = 16'b0010000010000101;'', ''ram[1] = 16'b0100000000000001;'',
                      ''ram[3] = 16'b0000000000000000;'']
   \<and> line_error 8192 0 ''ram[0] = 16'b0010000010000101;'' = None
   \<and> line_error 8192 1 ''ram[1] = 16'b0100000000000001;'' = None
   \<and> line_error 8192 2 ''ram[3] = 16'b0000000000000000;'' = Some (OutOfSequence 3)
   \<and> load_machine_code
         [''ram[0] = 16'b0010000010000101;'', ''ram[1] = 16'b0100000000000001;'',
          ''ram[3] = 16'b0000000000000000;''] (replicate 8192 0)
       = (Some (OutOfSequence 3), 8325 # 16385 # replicate 8190 0)
   \<and> main 5 [''ram[0] = 16'b0010000010000101;'', ''ram[1] = 16'b0100000000000001;'',
              ''ram[3] = 16'b0000000000000000;'']
       = Inl (OutOfSequence 3)"
proof -
  let ?L = "[''ram[0] = 16'b0010000010000101;'', ''ram[1] = 16'b0100000000000001;'',
             ''ram[3] = 16'b0000000000000000;'']"
  have h1: "2 \<le> length ?L" by simp
  have h2: "\<forall>j<2. line_error (length (replicate 8192 (0::int))) j (?L ! j) = None"
    by (auto dest!: less_2_cases simp: errs errs_Suc)
  have h3: "2 < length ?L \<longrightarrow>
              line_error (length (replicate 8192 (0::int))) 2 (?L ! 2) \<noteq> None"
    by (simp add: errs)
  have d: "drop 2 (replicate 8192 (0::int)) = replicate 8190 0" by simp
  note T = loader_fails_iff [where lines = ?L and mem = "replicate 8192 0" and i = 2 and fuel = 5]
  have "load_machine_code ?L (replicate 8192 0)
        = (if 2 < length ?L then line_error (length (replicate 8192 (0::int))) 2 (?L ! 2) else None,
           map line_word (take 2 ?L) @ drop 2 (replicate 8192 0))"
    using T h1 h2 h3 by blast
  then have l: "load_machine_code ?L (replicate 8192 0)
           = (Some (OutOfSequence 3), 8325 # 16385 # replicate 8190 0)"
    by (simp add: errs wds d)
  have m: "case fst (load_machine_code ?L (replicate 8192 0)) of
              Some e \<Rightarrow> main 5 ?L = Inl e
            | None \<Rightarrow> (\<exists>out. main 5 ?L = Inr out)"
    using T by blast
  from m have "main 5 ?L = Inl (OutOfSequence 3)" by (simp add: l)
  with l show ?thesis by (simp add: errs errs_Suc)
qed

lemma match_bad_digit: "machine_code_re_match ''ram[0] = 16'b2;'' = Some (''0'', ''2'')"
  by (simp add: machine_code_re_match_def is_digit_def)

lemma match_short: "machine_code_re_match ''ram[0] = 16'b101;'' = Some (''0'', ''101'')"
  by (simp add: machine_code_re_match_def is_digit_def)

lemma takeWhile_replicate_append:
  "P x \<Longrightarrow> takeWhile P (replicate n x @ ys) = replicate n x @ takeWhile P ys"
  by (induction n) simp_all

lemma dropWhile_replicate_append:
  "P x \<Longrightarrow> dropWhile P (replicate n x @ ys) = dropWhile P ys"
  by (induction n) simp_all

lemma match_long_address:
  "machine_code_re_match (''ram['' @ replicate 4301 CHR ''0'' @ ''] = 16'b0000000000000000;'')
   = Some (replicate 4301 CHR ''0'', ''0000000000000000'')"
proof -
  have d: "is_digit CHR ''0''" by (simp add: is_digit_def)
  have t: "takeWhile is_digit (replicate 4301 CHR ''0'' @ ''] = 16'b0000000000000000;'')
           = replicate 4301 CHR ''0''"
    by (simp add: takeWhile_replicate_append [where P = is_digit, OF d] is_digit_def)
  have r: "dropWhile is_digit (replicate 4301 CHR ''0'' @ ''] = 16'b0000000000000000;'')
           = ''] = 16'b0000000000000000;''"
    by (simp add: dropWhile_replicate_append [where P = is_digit, OF d] is_digit_def)
  show ?thesis
    by (simp add: machine_code_re_match_def t r) (simp add: is_digit_def)
qed

lemma zeros_value: "digits_value 10 (replicate n CHR ''0'') = 0"
  unfolding digits_value_def by (induction n) (simp_all add: digit_value_def)

text \<open>
  Claim C9, as stated, fails, under either reading of "the expected textual pattern". Read
  as the regular expression of the code: the line \<^verbatim>\<open>ram[0] = 16'b2;\<close> matches it with the
  expected address 0, below the capacity, and the loader still raises, in \<^verbatim>\<open>int(instr, 2)\<close>.
  Read as the pattern of the specification, with sixteen binary digits: the line
  \<^verbatim>\<open>ram[0] = 16'b101;\<close> does not match it, and the loader accepts it and stores 5. Under
  both readings: the line whose address is 4301 zeros, before sixteen binary digits,
  matches the pattern with the expected address 0, and the loader raises, in
  \<^verbatim>\<open>int(addr, 10)\<close>.
\<close>

theorem loader_pattern_counterexample:
  "machine_code_re_match ''ram[0] = 16'b2;'' = Some (''0'', ''2'')
   \<and> digits_value 10 ''0'' = 0
   \<and> digits_value 10 ''0'' < 8192
   \<and> load_machine_code [''ram[0] = 16'b2;''] (replicate 8192 0)
       = (Some (InvalidLiteral ''2''), replicate 8192 0)
   \<and> \<not> spec_line_pattern ''ram[0] = 16'b101;''
   \<and> load_machine_code [''ram[0] = 16'b101;''] (replicate 8192 0)
       = (None, (replicate 8192 0)[0 := 5])
   \<and> spec_line_pattern (''ram['' @ replicate 4301 CHR ''0'' @ ''] = 16'b0000000000000000;'')
   \<and> digits_value 10 (replicate 4301 CHR ''0'') = 0
   \<and> load_machine_code [''ram['' @ replicate 4301 CHR ''0'' @ ''] = 16'b0000000000000000;'']
         (replicate 8192 0)
       = (Some (DigitLimit 4301), replicate 8192 0)"
proof -
  have a: "load_machine_code [''ram[0] = 16'b2;''] (replicate 8192 0)
       = (Some (InvalidLiteral ''2''), replicate 8192 0)"
    by (simp add: load_machine_code_def load_loop.simps(2) match_bad_digit py_int_def is_digit_def
        digits_value_def digit_value_def max_str_digits_def)
  have b: "load_machine_code [''ram[0] = 16'b101;''] (replicate 8192 0)
       = (None, (replicate 8192 0)[0 := 5])"
    by (simp add: load_machine_code_def load_loop.simps(2) match_short py_int_def is_digit_def
        digits_value_def digit_value_def setitem_def list_index_def max_str_digits_def)
  have c: "\<not> spec_line_pattern ''ram[0] = 16'b101;''"
    by (simp add: spec_line_pattern_def match_short)
  have d: "spec_line_pattern (''ram['' @ replicate 4301 CHR ''0'' @ ''] = 16'b0000000000000000;'')"
    unfolding spec_line_pattern_def match_long_address by (simp add: is_binary_def)
  have "py_int (replicate 4301 CHR ''0'') 10 = Inl (DigitLimit 4301)"
    by (simp add: py_int_def is_digit_def digit_value_def max_str_digits_def)
  then have e: "load_machine_code
         [''ram['' @ replicate 4301 CHR ''0'' @ ''] = 16'b0000000000000000;''] (replicate 8192 0)
       = (Some (DigitLimit 4301), replicate 8192 0)"
    unfolding load_machine_code_def load_loop.simps(2) match_long_address by simp
  have f: "digits_value 10 ''0'' = 0" by (simp add: digits_value_def digit_value_def)
  from a b c d e show ?thesis
    by (simp add: match_bad_digit zeros_value f)
qed

end
